theory Spec2Isabelle
  imports Main
begin

section \<open>Certificate validation options and their deduplication\<close>

text \<open>
  The certificate authority hands back a list of validation options. The program reads
  three fields of each (\<open>resourceRecordType\<close>, \<open>resourceRecordName\<close>,
  \<open>resourceRecordValue\<close>); the record is extensible, so an option may carry further
  fields (the provider's type also has a domain name) which the program never looks at.
\<close>

record CertificateDomainValidationOption =
  resourceRecordType :: string
  resourceRecordName :: string
  resourceRecordValue :: string

text \<open>
  \<open>Array.prototype.findIndex\<close>: the index of the first element the predicate accepts,
  \<open>-1\<close> when there is none.
\<close>

fun findIndexFrom :: "('a \<Rightarrow> bool) \<Rightarrow> 'a list \<Rightarrow> nat \<Rightarrow> int" where
  "findIndexFrom p [] i = - 1"
| "findIndexFrom p (x # xs) i = (if p x then int i else findIndexFrom p xs (Suc i))"

definition findIndex :: "('a \<Rightarrow> bool) \<Rightarrow> 'a list \<Rightarrow> int" where
  "findIndex p arr = findIndexFrom p arr 0"

text \<open>
  \<open>Array.prototype.filter\<close> and \<open>Array.prototype.map\<close> with the two-argument
  callback \<open>(element, index)\<close>.
\<close>

definition filter_indexed :: "('a \<Rightarrow> nat \<Rightarrow> bool) \<Rightarrow> 'a list \<Rightarrow> 'a list" where
  "filter_indexed f arr = map fst (filter (\<lambda>(element, index). f element index) (zip arr [0..<length arr]))"

definition map_indexed :: "('a \<Rightarrow> nat \<Rightarrow> 'b) \<Rightarrow> 'a list \<Rightarrow> 'b list" where
  "map_indexed f arr = map (\<lambda>(element, index). f element index) (zip arr [0..<length arr])"

text \<open>
  \<^verbatim>\<open>const uniqWith = (arr, fn) =>
     arr.filter((element, index) => arr.findIndex((step) => fn(element, step)) === index);\<close>
\<close>

definition uniqWith :: "'a list \<Rightarrow> ('a \<Rightarrow> 'a \<Rightarrow> bool) \<Rightarrow> 'a list" where
  "uniqWith arr fn =
     filter_indexed (\<lambda>element index. findIndex (\<lambda>step. fn element step) arr = int index) arr"

text \<open>
  The comparator the program passes to \<open>uniqWith\<close>: record type, then record value,
  then record name, each compared with \<open>===\<close>.
\<close>

definition sameValidationOption ::
  "'a CertificateDomainValidationOption_scheme \<Rightarrow> 'a CertificateDomainValidationOption_scheme \<Rightarrow> bool" where
  "sameValidationOption x y =
     (resourceRecordType x = resourceRecordType y \<and>
      resourceRecordValue x = resourceRecordValue y \<and>
      resourceRecordName x = resourceRecordName y)"

text \<open>The (type, name, value) triple of a validation option.\<close>

definition triple :: "'a CertificateDomainValidationOption_scheme \<Rightarrow> string \<times> string \<times> string" where
  "triple x = (resourceRecordType x, resourceRecordName x, resourceRecordValue x)"

text \<open>
  The reading of "first occurrences" used to compare with \<open>uniqWith\<close>: walk the list
  once, remembering the triples seen so far, and keep an element when its triple is new.
\<close>

fun firstOccurrences ::
  "(string \<times> string \<times> string) set \<Rightarrow> 'a CertificateDomainValidationOption_scheme list
     \<Rightarrow> 'a CertificateDomainValidationOption_scheme list" where
  "firstOccurrences seen [] = []"
| "firstOccurrences seen (x # xs) =
     (if triple x \<in> seen then firstOccurrences seen xs
      else x # firstOccurrences (insert (triple x) seen) xs)"


section \<open>Resources of the deployment program\<close>

text \<open>
  A property of a resource is a literal, an output of another resource of the program
  (\<open>Ref n p\<close>: property \<open>p\<close> of the resource with logical name \<open>n\<close>, as in
  \<open>alb.arn\<close>), or a value of a provider lookup (\<open>Data v p\<close>: \<open>defaultVpc.id\<close>,
  \<open>hostedZone.id\<close>), which is no resource.
\<close>

datatype input = Lit string | Ref string string | Data string string

datatype action =
    Redirect string string string string \<comment> \<open>statusCode, host, path, protocol\<close>
  | Forward input \<comment> \<open>targetGroupArn\<close>

datatype healthCheck = HealthCheck string nat nat \<comment> \<open>path, interval, timeout\<close>

datatype container =
  Container string input "(nat \<times> nat \<times> string) list" "(string \<times> input) list" string "(string \<times> input) list"
  \<comment> \<open>name, image, portMappings (containerPort, hostPort, protocol), environment,
      logDriver, log options\<close>

datatype stepAdjustment =
  StepAdjustment "string option" "string option" int
  \<comment> \<open>metricIntervalLowerBound, metricIntervalUpperBound, scalingAdjustment\<close>

datatype args =
    LoadBalancer "input list" input
    \<comment> \<open>securityGroups, subnets\<close>
  | TargetGroup nat string string input "healthCheck option"
    \<comment> \<open>port, protocol, targetType, vpcId, healthCheck\<close>
  | Listener input "input list" nat string "action list"
    \<comment> \<open>loadBalancerArn, certificates, port, protocol, defaultActions\<close>
  | Certificate string string
    \<comment> \<open>domainName, validationMethod\<close>
  | Record string input string "nat option" "string list" "(input \<times> input \<times> bool) list"
    \<comment> \<open>name, zoneId, type, ttl, records, aliases (name, zoneId, evaluateTargetHealth)\<close>
  | CertificateValidation input "input list"
    \<comment> \<open>certificateArn, validationRecordFqdns\<close>
  | ListenerRule input "action list" "string list list" nat
    \<comment> \<open>listenerArn, actions, conditions (the values of each pathPattern), priority\<close>
  | TaskDefinition string string string string "string list" input "input option" "container list" string
    \<comment> \<open>family, cpu, memory, networkMode, requiresCompatibilities, executionRoleArn,
        taskRoleArn, containerDefinitions, cpuArchitecture\<close>
  | Service "string option" input nat string input string input "input list" "(input \<times> string \<times> nat) list"
    \<comment> \<open>serviceName, cluster, desiredCount, launchType, taskDefinition, assignPublicIp,
        subnets, securityGroups, loadBalancers (targetGroupArn, containerName, containerPort)\<close>
  | Target nat nat "input list" string string
    \<comment> \<open>maxCapacity, minCapacity, resourceId (the pieces of the interpolated string),
        scalableDimension, serviceNamespace\<close>
  | Policy string input input input string nat string "stepAdjustment list"
    \<comment> \<open>policyType, resourceId, scalableDimension, serviceNamespace, adjustmentType,
        cooldown, metricAggregationType, stepAdjustments\<close>
  | Other string "input list"
    \<comment> \<open>any other resource (security group, roles and policies, cluster, repository,
        images, log group, table): its constructor and the outputs its properties read\<close>

text \<open>
  A resource as the program requests it: \<open>new T(name, args, {dependsOn})\<close>. \<open>applied\<close>
  lists the outputs inside whose \<open>apply\<close> callback the constructor call sits; the call is
  made only once those outputs are known.
\<close>

record resource =
  name :: string
  args :: args
  dependsOn :: "string list"
  applied :: "input list"

definition new :: "string \<Rightarrow> args \<Rightarrow> string list \<Rightarrow> resource" where
  "new n a opts = \<lparr>name = n, args = a, dependsOn = opts, applied = []\<rparr>"

fun action_inputs :: "action \<Rightarrow> input list" where
  "action_inputs (Redirect statusCode host path protocol) = []"
| "action_inputs (Forward targetGroupArn) = [targetGroupArn]"

fun container_inputs :: "container \<Rightarrow> input list" where
  "container_inputs (Container n img portMappings environment logDriver logOptions) =
     img # map snd environment @ map snd logOptions"

fun inputs :: "args \<Rightarrow> input list" where
  "inputs (LoadBalancer securityGroups subnets) = securityGroups @ [subnets]"
| "inputs (TargetGroup port protocol targetType vpcId hc) = [vpcId]"
| "inputs (Listener loadBalancerArn certificates port protocol defaultActions) =
     loadBalancerArn # certificates @ concat (map action_inputs defaultActions)"
| "inputs (Certificate domainName validationMethod) = []"
| "inputs (Record n zoneId recordType ttl recs aliases) =
     zoneId # concat (map (\<lambda>(aliasName, aliasZone, evaluateTargetHealth). [aliasName, aliasZone]) aliases)"
| "inputs (CertificateValidation certificateArn validationRecordFqdns) =
     certificateArn # validationRecordFqdns"
| "inputs (ListenerRule listenerArn actions conditions priority) =
     listenerArn # concat (map action_inputs actions)"
| "inputs (TaskDefinition family cpu memory networkMode requiresCompatibilities executionRoleArn taskRoleArn containers arch) =
     executionRoleArn # (case taskRoleArn of None \<Rightarrow> [] | Some r \<Rightarrow> [r])
       @ concat (map container_inputs containers)"
| "inputs (Service serviceName cluster desiredCount launchType taskDefinition assignPublicIp subnets
       securityGroups loadBalancers) =
     cluster # taskDefinition # subnets # securityGroups
       @ map (\<lambda>(targetGroupArn, containerName, containerPort). targetGroupArn) loadBalancers"
| "inputs (Target maxCapacity minCapacity resourceId scalableDimension serviceNamespace) = resourceId"
| "inputs (Policy policyType resourceId scalableDimension serviceNamespace adjustmentType cooldown
       aggregation steps) = [resourceId, scalableDimension, serviceNamespace]"
| "inputs (Other constructor ins) = ins"

fun referenced :: "input \<Rightarrow> string list" where
  "referenced (Ref n p) = [n]"
| "referenced (Lit v) = []"
| "referenced (Data v p) = []"

text \<open>
  The resources a resource waits for: those whose outputs its properties read, those
  whose outputs its \<open>apply\<close> callback reads, and those of \<open>dependsOn\<close>.
\<close>

definition deps :: "resource \<Rightarrow> string list" where
  "deps d = concat (map referenced (inputs (args d) @ applied d)) @ dependsOn d"

text \<open>The decimal text of an array index, as a template literal prints it.\<close>

function string_of_nat :: "nat \<Rightarrow> string" where
  "string_of_nat n =
     (if n < 10 then [char_of (48 + n)]
      else string_of_nat (n div 10) @ [char_of (48 + n mod 10)])"
  by pat_completeness auto
termination
  by (relation "measure id") auto

declare string_of_nat.simps [simp del]


section \<open>The multi-service program\<close>

text \<open>
  The program with both services and autoscaling. Each definition is one top-level
  \<open>const\<close> of the program, under the same name (\<open>group\<close> is \<open>group_sg\<close> here);
  \<open>Ref\<close> names a resource by its logical name, the constructor's first argument.
  \<open>logOptions\<close> is the \<open>options\<close> object of the log configuration, which every task
  definition repeats.
\<close>

definition group_sg :: resource where
  "group_sg = new ''web-secgrp''
     (Other ''awsClassic.ec2.SecurityGroup'' [Data ''defaultVpc'' ''id'']) []"

definition alb :: resource where
  "alb = new ''app-lb''
     (LoadBalancer [Ref ''web-secgrp'' ''id''] (Data ''defaultVpcSubnets'' ''ids'')) []"

definition todoAppTg :: resource where
  "todoAppTg = new ''todo-app-tg''
     (TargetGroup 80 ''HTTP'' ''ip'' (Data ''defaultVpc'' ''id'') None) []"

definition todoApiTg :: resource where
  "todoApiTg = new ''todo-api-tg''
     (TargetGroup 80 ''HTTP'' ''ip'' (Data ''defaultVpc'' ''id'') (Some (HealthCheck ''/api/'' 5 2))) []"

definition ecsTaskInitializationRole :: resource where
  "ecsTaskInitializationRole = new ''task-init-role'' (Other ''awsClassic.iam.Role'' []) []"

definition rpa :: resource where
  "rpa = new ''task-exec-policy''
     (Other ''awsClassic.iam.RolePolicyAttachment''
        [Ref ''task-init-role'' ''name'',
         Lit ''arn:aws:iam::aws:policy/service-role/AmazonECSTaskExecutionRolePolicy'']) []"

definition cluster :: resource where
  "cluster = new ''aws-by-example'' (Other ''awsnative.ecs.Cluster'' []) []"

definition httpsRedirectListener :: resource where
  "httpsRedirectListener = new ''https-redirect-listener''
     (Listener (Ref ''app-lb'' ''arn'') [] 80 ''HTTP''
        [Redirect ''HTTP_301'' ''#{host}'' ''/#{path}'' ''HTTPS'']) []"

definition YOUR_DOMAIN :: string where
  "YOUR_DOMAIN = ''uncld.net''"

definition certificate :: resource where
  "certificate = new ''alb-certificate'' (Certificate YOUR_DOMAIN ''DNS'') []"

definition hostedZoneAlbRecord :: resource where
  "hostedZoneAlbRecord = new ''lb-alias-record''
     (Record YOUR_DOMAIN (Data ''hostedZone'' ''id'') ''A'' None []
        [(Ref ''app-lb'' ''dnsName'', Ref ''app-lb'' ''zoneId'', True)]) []"

text \<open>
  The callback of \<open>certificate.domainValidationOptions.apply\<close>: deduplicate the options,
  map each kept option to a DNS record named after its index, then request one
  certificate validation for each record, named after the record's index and reading the
  record's \<open>fqdn\<close>.
\<close>

definition validationRecords :: "'a CertificateDomainValidationOption_scheme list \<Rightarrow> resource list" where
  "validationRecords validationOptions =
     map_indexed
       (\<lambda>validationOption index.
          \<lparr>name = YOUR_DOMAIN @ ''-cert-validation-record-'' @ string_of_nat index,
           args = Record (resourceRecordName validationOption) (Data ''hostedZone'' ''id'')
                    (resourceRecordType validationOption) (Some 60)
                    [resourceRecordValue validationOption] [],
           dependsOn = [],
           applied = [Ref ''alb-certificate'' ''domainValidationOptions'']\<rparr>)
       (uniqWith validationOptions sameValidationOption)"

definition certificateValidations :: "'a CertificateDomainValidationOption_scheme list \<Rightarrow> resource list" where
  "certificateValidations validationOptions =
     map_indexed
       (\<lambda>certValidationRecord index.
          \<lparr>name = YOUR_DOMAIN @ ''-cert-dns-validation-'' @ string_of_nat index,
           args = CertificateValidation (Ref ''alb-certificate'' ''arn'')
                    [Ref (name certValidationRecord) ''fqdn''],
           dependsOn = [],
           applied = [Ref ''alb-certificate'' ''domainValidationOptions'']\<rparr>)
       (validationRecords validationOptions)"

definition todoListener :: resource where
  "todoListener = new ''todo-listener''
     (Listener (Ref ''app-lb'' ''arn'') [Ref ''alb-certificate'' ''arn''] 443 ''HTTPS''
        [Forward (Ref ''todo-app-tg'' ''arn'')]) []"

definition todoApiListenerRule :: resource where
  "todoApiListenerRule = new ''api-rule''
     (ListenerRule (Ref ''todo-listener'' ''listenerArn'')
        [Forward (Ref ''todo-api-tg'' ''arn'')] [[''/api/*'']] 10) []"

definition ecrRepo :: resource where
  "ecrRepo = new ''abe-example-repo'' (Other ''awsClassic.ecr.Repository'' []) []"

definition todoAppImage :: resource where
  "todoAppImage = new ''todo-app-image''
     (Other ''awsx.ecr.Image'' [Ref ''abe-example-repo'' ''repositoryUrl'']) []"

definition todoApiImage :: resource where
  "todoApiImage = new ''todo-api-image''
     (Other ''awsx.ecr.Image'' [Ref ''abe-example-repo'' ''repositoryUrl'']) []"

definition allowImageAccess :: resource where
  "allowImageAccess = new ''ecr-access-policy''
     (Other ''awsClassic.iam.Policy'' [Ref ''abe-example-repo'' ''arn'']) []"

definition taskExecutionRolePolicyAttachment :: resource where
  "taskExecutionRolePolicyAttachment = new ''task-execution-role-policy-attachment''
     (Other ''awsClassic.iam.RolePolicyAttachment''
        [Ref ''task-init-role'' ''name'', Ref ''ecr-access-policy'' ''arn'']) []"

definition logGroup :: resource where
  "logGroup = new ''website-task-logs'' (Other ''awsClassic.cloudwatch.LogGroup'' []) []"

definition logOptions :: "(string \<times> input) list" where
  "logOptions =
     [(''awslogs-group'', Ref ''website-task-logs'' ''name''),
      (''awslogs-region'', Data ''getRegion'' ''name''),
      (''awslogs-stream-prefix'', Lit ''ecs'')]"

definition todoAppTask :: resource where
  "todoAppTask = new ''todo-app-task''
     (TaskDefinition ''todo-app-task'' ''256'' ''512'' ''awsvpc'' [''FARGATE'']
        (Ref ''task-init-role'' ''arn'') None
        [Container ''todo-app'' (Ref ''todo-app-image'' ''imageUri'') [(80, 80, ''tcp'')] []
           ''awslogs'' logOptions]
        ''ARM64'') []"

definition todoTable :: resource where
  "todoTable = new ''abe-todos'' (Other ''awsClassic.dynamodb.Table'' []) []"

definition allowTableAccess :: resource where
  "allowTableAccess = new ''allow-table-access''
     (Other ''awsClassic.iam.Policy'' [Ref ''abe-todos'' ''arn'']) []"

definition ecsTaskRole :: resource where
  "ecsTaskRole = new ''task-role'' (Other ''awsClassic.iam.Role'' []) []"

definition allowTableAccessPolicyAttachment :: resource where
  "allowTableAccessPolicyAttachment = new ''allow-table-access-policy-attachment''
     (Other ''awsClassic.iam.RolePolicyAttachment''
        [Ref ''task-role'' ''name'', Ref ''allow-table-access'' ''arn'']) []"

definition todoApiTask :: resource where
  "todoApiTask = new ''todo-api-task''
     (TaskDefinition ''todo-api-task'' ''256'' ''512'' ''awsvpc'' [''FARGATE'']
        (Ref ''task-init-role'' ''arn'') (Some (Ref ''task-role'' ''arn''))
        [Container ''todo-api'' (Ref ''todo-api-image'' ''imageUri'') [(80, 80, ''tcp'')]
           [(''AWS_REGION'', Lit ''eu-central-1''),
            (''DYNAMODB_TABLE_NAME'', Ref ''abe-todos'' ''name''),
            (''PORT'', Lit ''80'')]
           ''awslogs'' logOptions]
        ''ARM64'') []"

definition todoAppService :: resource where
  "todoAppService = new ''todo-app-service''
     (Service None (Ref ''aws-by-example'' ''arn'') 1 ''FARGATE''
        (Ref ''todo-app-task'' ''taskDefinitionArn'') ''ENABLED''
        (Data ''defaultVpcSubnets'' ''ids'') [Ref ''web-secgrp'' ''id'']
        [(Ref ''todo-app-tg'' ''arn'', ''todo-app'', 80)])
     [''https-redirect-listener'', ''todo-listener'']"

definition todoApiService :: resource where
  "todoApiService = new ''todo-api-service''
     (Service None (Ref ''aws-by-example'' ''arn'') 1 ''FARGATE''
        (Ref ''todo-api-task'' ''taskDefinitionArn'') ''ENABLED''
        (Data ''defaultVpcSubnets'' ''ids'') [Ref ''web-secgrp'' ''id'']
        [(Ref ''todo-api-tg'' ''arn'', ''todo-api'', 80)])
     [''https-redirect-listener'', ''todo-listener'', ''api-rule'']"

definition todoAppScalingTarget :: resource where
  "todoAppScalingTarget = new ''todo-app-service-scaling-target''
     (Target 10 1
        [Lit ''service/'', Ref ''aws-by-example'' ''clusterName'', Lit ''/'',
         Ref ''todo-app-service'' ''serviceName'']
        ''ecs:service:DesiredCount'' ''ecs'') []"

definition todoAppScalingPolicy :: resource where
  "todoAppScalingPolicy = new ''todo-app-scaledown-policy''
     (Policy ''StepScaling''
        (Ref ''todo-app-service-scaling-target'' ''resourceId'')
        (Ref ''todo-app-service-scaling-target'' ''scalableDimension'')
        (Ref ''todo-app-service-scaling-target'' ''serviceNamespace'')
        ''ChangeInCapacity'' 60 ''Maximum''
        [StepAdjustment None (Some ''0'') (- 1)]) []"

definition todoApiScalingTarget :: resource where
  "todoApiScalingTarget = new ''todo-api-service-scaling-target''
     (Target 10 1
        [Lit ''service/'', Ref ''aws-by-example'' ''clusterName'', Lit ''/'',
         Ref ''todo-api-service'' ''serviceName'']
        ''ecs:service:DesiredCount'' ''ecs'') []"

definition todoApiScalingPolicy :: resource where
  "todoApiScalingPolicy = new ''todo-api-scaledown-policy''
     (Policy ''StepScaling''
        (Ref ''todo-api-service-scaling-target'' ''resourceId'')
        (Ref ''todo-api-service-scaling-target'' ''scalableDimension'')
        (Ref ''todo-api-service-scaling-target'' ''serviceNamespace'')
        ''ChangeInCapacity'' 60 ''Maximum''
        [StepAdjustment None (Some ''0'') (- 1)]) []"

text \<open>
  The resources the program requests when the certificate authority answers with
  \<open>validationOptions\<close>, in the order of the program text.
\<close>

definition program :: "'a CertificateDomainValidationOption_scheme list \<Rightarrow> resource list" where
  "program validationOptions =
     [group_sg, alb, todoAppTg, todoApiTg, ecsTaskInitializationRole, rpa, cluster,
      httpsRedirectListener, certificate, hostedZoneAlbRecord]
     @ validationRecords validationOptions @ certificateValidations validationOptions
     @ [todoListener, todoApiListenerRule, ecrRepo, todoAppImage, todoApiImage, allowImageAccess,
        taskExecutionRolePolicyAttachment, logGroup, todoAppTask, todoTable, allowTableAccess,
        ecsTaskRole, allowTableAccessPolicyAttachment, todoApiTask, todoAppService, todoApiService,
        todoAppScalingTarget, todoAppScalingPolicy, todoApiScalingTarget, todoApiScalingPolicy]"

section \<open>The single-service program\<close>

text \<open>
  The earlier stage with one service and a custom image. It declares the security group,
  the load balancer, the certificate, the alias record, the validation callback and the
  log group exactly as above; the definitions below are the constants that differ, with
  the suffix \<open>_03\<close> where the name is taken. This stage declares no autoscaling.
\<close>

definition atg :: resource where
  "atg = new ''app-tg'' (TargetGroup 80 ''HTTP'' ''ip'' (Data ''defaultVpc'' ''id'') None) []"

definition role :: resource where
  "role = new ''task-exec-role'' (Other ''awsClassic.iam.Role'' []) []"

definition rpa_03 :: resource where
  "rpa_03 = new ''task-exec-policy''
     (Other ''awsClassic.iam.RolePolicyAttachment''
        [Ref ''task-exec-role'' ''name'',
         Lit ''arn:aws:iam::aws:policy/service-role/AmazonECSTaskExecutionRolePolicy'']) []"

definition cluster_03 :: resource where
  "cluster_03 = new ''cluster'' (Other ''awsnative.ecs.Cluster'' []) []"

definition wl :: resource where
  "wl = new ''web''
     (Listener (Ref ''app-lb'' ''arn'') [] 80 ''HTTP''
        [Redirect ''HTTP_301'' ''#{host}'' ''/#{path}'' ''HTTPS'']) []"

definition secureWebListener :: resource where
  "secureWebListener = new ''https-web''
     (Listener (Ref ''app-lb'' ''arn'') [Ref ''alb-certificate'' ''arn''] 443 ''HTTPS''
        [Forward (Ref ''app-tg'' ''arn'')]) []"

definition ecrRepo_03 :: resource where
  "ecrRepo_03 = new ''ecr-repo'' (Other ''awsClassic.ecr.Repository'' []) []"

definition websiteImage :: resource where
  "websiteImage = new ''website-image''
     (Other ''awsx.ecr.Image'' [Ref ''ecr-repo'' ''repositoryUrl'']) []"

definition allowImageAccess_03 :: resource where
  "allowImageAccess_03 = new ''ecr-access-policy''
     (Other ''awsClassic.iam.Policy'' [Ref ''ecr-repo'' ''arn'']) []"

definition taskExecutionRolePolicyAttachment_03 :: resource where
  "taskExecutionRolePolicyAttachment_03 = new ''task-execution-role-policy-attachment''
     (Other ''awsClassic.iam.RolePolicyAttachment''
        [Ref ''task-exec-role'' ''name'', Ref ''ecr-access-policy'' ''arn'']) []"

definition taskDefinition :: resource where
  "taskDefinition = new ''website-task''
     (TaskDefinition ''abe-example-website'' ''256'' ''512'' ''awsvpc'' [''FARGATE'']
        (Ref ''task-exec-role'' ''arn'') None
        [Container ''custom-website'' (Ref ''website-image'' ''imageUri'') [(80, 80, ''tcp'')] []
           ''awslogs'' logOptions]
        ''ARM64'') []"

definition service :: resource where
  "service = new ''website-service''
     (Service (Some ''abe-example-website'') (Ref ''cluster'' ''arn'') 1 ''FARGATE''
        (Ref ''website-task'' ''taskDefinitionArn'') ''ENABLED''
        (Data ''defaultVpcSubnets'' ''ids'') [Ref ''web-secgrp'' ''id'']
        [(Ref ''app-tg'' ''arn'', ''custom-website'', 80)])
     [''web'', ''https-web'']"

definition program_03 :: "'a CertificateDomainValidationOption_scheme list \<Rightarrow> resource list" where
  "program_03 validationOptions =
     [group_sg, alb, atg, role, rpa_03, cluster_03, wl, certificate, hostedZoneAlbRecord]
     @ validationRecords validationOptions @ certificateValidations validationOptions
     @ [secureWebListener, ecrRepo_03, websiteImage, allowImageAccess_03,
        taskExecutionRolePolicyAttachment_03, logGroup, taskDefinition, service]"

section \<open>Runs of the provisioning engine\<close>

text \<open>
  The engine creates the resources in an order of its choosing, a resource at a time
  once everything it waits for has been created. A run is the list of resources created
  so far, oldest first; a run that stops early (a resource fails, or is still pending)
  is a run too.
\<close>

definition ready :: "resource list \<Rightarrow> string list \<Rightarrow> string \<Rightarrow> bool" where
  "ready P created x \<longleftrightarrow>
     x \<in> set (map name P) \<and> x \<notin> set created \<and>
     list_all (\<lambda>d. name d \<noteq> x \<or> list_all (\<lambda>y. y \<in> set created) (deps d)) P"

fun run_from :: "resource list \<Rightarrow> string list \<Rightarrow> string list \<Rightarrow> bool" where
  "run_from P created [] = True"
| "run_from P created (x # xs) = (ready P created x \<and> run_from P (created @ [x]) xs)"

definition valid_run :: "resource list \<Rightarrow> string list \<Rightarrow> bool" where
  "valid_run P r = run_from P [] r"

text \<open>\<open>precedes x y r\<close>: in the run \<open>r\<close>, \<open>x\<close> is created before \<open>y\<close> is.\<close>

definition precedes :: "string \<Rightarrow> string \<Rightarrow> string list \<Rightarrow> bool" where
  "precedes x y r \<longleftrightarrow> x \<in> set (takeWhile (\<lambda>z. z \<noteq> y) r)"


section \<open>Reading a program\<close>

text \<open>The kinds of resource the statements below speak about.\<close>

fun is_Service :: "args \<Rightarrow> bool" where
  "is_Service (Service serviceName cl desiredCount launchType task assignPublicIp subnets
     securityGroups loadBalancers) = True"
| "is_Service other = False"

fun is_Listener :: "args \<Rightarrow> bool" where
  "is_Listener (Listener loadBalancerArn certificates p protocol defaultActions) = True"
| "is_Listener other = False"

fun is_ListenerRule :: "args \<Rightarrow> bool" where
  "is_ListenerRule (ListenerRule listenerArn actions conditions priority) = True"
| "is_ListenerRule other = False"

fun is_CertificateValidation :: "args \<Rightarrow> bool" where
  "is_CertificateValidation (CertificateValidation certificateArn fqdns) = True"
| "is_CertificateValidation other = False"

definition services :: "resource list \<Rightarrow> resource list" where
  "services P = filter (\<lambda>d. is_Service (args d)) P"

definition listeners :: "resource list \<Rightarrow> resource list" where
  "listeners P = filter (\<lambda>d. is_Listener (args d)) P"

definition rules :: "resource list \<Rightarrow> resource list" where
  "rules P = filter (\<lambda>d. is_ListenerRule (args d)) P"

text \<open>The listeners on port 443.\<close>

fun listenerPort :: "args \<Rightarrow> nat option" where
  "listenerPort (Listener loadBalancerArn certificates p protocol defaultActions) = Some p"
| "listenerPort other = None"

definition secureListeners :: "resource list \<Rightarrow> resource list" where
  "secureListeners P = filter (\<lambda>d. listenerPort (args d) = Some 443) P"

text \<open>
  The target groups a listener's default actions forward to, those a rule's actions
  forward to, and those a service registers its containers with.
\<close>

fun defaultTargets :: "args \<Rightarrow> input list" where
  "defaultTargets (Listener loadBalancerArn certificates p protocol defaultActions) =
     concat (map action_inputs defaultActions)"
| "defaultTargets other = []"

fun ruleTargets :: "args \<Rightarrow> input list" where
  "ruleTargets (ListenerRule listenerArn actions conditions priority) =
     concat (map action_inputs actions)"
| "ruleTargets other = []"

fun targetGroups :: "args \<Rightarrow> input list" where
  "targetGroups (Service serviceName cl desiredCount launchType task assignPublicIp subnets
     securityGroups loadBalancers) =
     map (\<lambda>(targetGroupArn, containerName, containerPort). targetGroupArn) loadBalancers"
| "targetGroups other = []"

text \<open>The rules that route to a service: those forwarding to one of its target groups.\<close>

definition rulesFor :: "resource list \<Rightarrow> resource \<Rightarrow> resource list" where
  "rulesFor P s =
     filter (\<lambda>r. list_ex (\<lambda>t. t \<in> set (targetGroups (args s))) (ruleTargets (args r))) P"

text \<open>
  The scaling targets of a service (their resource id reads the service's name) and the
  policies of a scaling target (their resource id is the target's).
\<close>

fun scalesService :: "string \<Rightarrow> args \<Rightarrow> bool" where
  "scalesService s (Target maxCapacity minCapacity resourceId scalableDimension serviceNamespace) =
     (Ref s ''serviceName'' \<in> set resourceId)"
| "scalesService s other = False"

fun policyOf :: "string \<Rightarrow> args \<Rightarrow> bool" where
  "policyOf t (Policy policyType resourceId scalableDimension serviceNamespace adjustmentType
     cooldown aggregation stepAdjustments) = (resourceId = Ref t ''resourceId'')"
| "policyOf t other = False"

definition scalingTargetsFor :: "resource list \<Rightarrow> resource \<Rightarrow> resource list" where
  "scalingTargetsFor P s = filter (\<lambda>t. scalesService (name s) (args t)) P"

definition policiesFor :: "resource list \<Rightarrow> resource \<Rightarrow> resource list" where
  "policiesFor P t = filter (\<lambda>p. policyOf (name t) (args p)) P"

fun stepAdjustments :: "args \<Rightarrow> stepAdjustment list" where
  "stepAdjustments (Policy policyType resourceId scalableDimension serviceNamespace adjustmentType
     cooldown aggregation steps) = steps"
| "stepAdjustments other = []"

fun scalingAdjustment :: "stepAdjustment \<Rightarrow> int" where
  "scalingAdjustment (StepAdjustment lower upper adjustment) = adjustment"


text \<open>The (type, name, value) triple a DNS record publishes, when it holds one value.\<close>

fun recordTriple :: "args \<Rightarrow> (string \<times> string \<times> string) option" where
  "recordTriple (Record n zoneId recordType ttl [v] aliases) = Some (recordType, n, v)"
| "recordTriple other = None"

text \<open>Two validation options for examples, with different record names and values.\<close>

definition challengeA :: CertificateDomainValidationOption where
  "challengeA = \<lparr>resourceRecordType = ''CNAME'', resourceRecordName = ''_a1.uncld.net.'',
     resourceRecordValue = ''_b1.acm-validations.aws.''\<rparr>"

definition challengeB :: CertificateDomainValidationOption where
  "challengeB = \<lparr>resourceRecordType = ''CNAME'', resourceRecordName = ''_a2.www.uncld.net.'',
     resourceRecordValue = ''_b2.acm-validations.aws.''\<rparr>"

text \<open>
  What a run has reached: every validation wait of the program has completed (its
  \<open>CertificateValidation\<close> resource has been created), and a secure listener exists.
\<close>

definition validated :: "resource list \<Rightarrow> string list \<Rightarrow> bool" where
  "validated P r = list_all (\<lambda>d. name d \<in> set r) (filter (\<lambda>d. is_CertificateValidation (args d)) P)"

definition secureListenerCreated :: "resource list \<Rightarrow> string list \<Rightarrow> bool" where
  "secureListenerCreated P r = list_ex (\<lambda>l. name l \<in> set r) (secureListeners P)"


definition pendingRun :: "string list" where
  "pendingRun = [''web-secgrp'', ''app-lb'', ''todo-app-tg'', ''alb-certificate'', ''todo-listener'']"

definition apiRun :: "string list" where
  "apiRun =
     [''web-secgrp'', ''app-lb'', ''todo-app-tg'', ''todo-api-tg'', ''task-init-role'',
      ''aws-by-example'', ''https-redirect-listener'', ''alb-certificate'', ''todo-listener'',
      ''api-rule'', ''abe-example-repo'', ''todo-api-image'', ''website-task-logs'', ''abe-todos'',
      ''task-role'', ''todo-api-task'', ''todo-api-service'', ''todo-api-service-scaling-target'',
      ''todo-api-scaledown-policy'']"

section \<open>The API service\<close>

text \<open>
  The request handlers of the API container. The table client is a parameter: \<open>send\<close>
  takes a command and the table and returns the command's output, or \<open>None\<close> when the
  call throws, with the table afterwards. The clock (\<open>Date.now()\<close>) and the table name
  of the environment are parameters too.
\<close>

datatype json =
    JUndefined
  | JBool bool
  | JString string
  | JArray "json list"
  | JObject "(string \<times> json) list"

datatype command =
    ScanCommand json
  | PutCommand json
  | UpdateCommand json

record request =
  httpMethod :: string
  originalUrl :: string
  body :: "(string \<times> json) list"

record response =
  status :: nat
  payload :: json

fun field :: "string \<Rightarrow> (string \<times> json) list \<Rightarrow> json" where
  "field k [] = JUndefined"
| "field k ((k', v) # kvs) = (if k = k' then v else field k kvs)"

fun getProperty :: "string \<Rightarrow> json \<Rightarrow> json" where
  "getProperty k (JObject kvs) = field k kvs"
| "getProperty k v = JUndefined"

definition getTodos ::
  "(command \<Rightarrow> 'db \<Rightarrow> json option \<times> 'db) \<Rightarrow> string \<Rightarrow> request \<Rightarrow> 'db \<Rightarrow> response \<times> 'db" where
  "getTodos send TABLE_NAME req db =
     (let params = JObject [(''TableName'', JString TABLE_NAME)] in
      case send (ScanCommand params) db of
        (Some data, db') \<Rightarrow> (\<lparr>status = 200, payload = getProperty ''Items'' data\<rparr>, db')
      | (None, db') \<Rightarrow>
          (\<lparr>status = 500, payload = JObject [(''error'', JString ''Could not fetch todos'')]\<rparr>, db'))"

definition postTodos ::
  "(command \<Rightarrow> 'db \<Rightarrow> json option \<times> 'db) \<Rightarrow> string \<Rightarrow> string \<Rightarrow> request \<Rightarrow> 'db \<Rightarrow> response \<times> 'db" where
  "postTodos send TABLE_NAME now req db =
     (let todo = JObject [(''id'', JString now), (''text'', field ''text'' (body req)),
                          (''completed'', JBool False)];
          params = JObject [(''TableName'', JString TABLE_NAME), (''Item'', todo)] in
      case send (PutCommand params) db of
        (Some data, db') \<Rightarrow> (\<lparr>status = 201, payload = todo\<rparr>, db')
      | (None, db') \<Rightarrow>
          (\<lparr>status = 500, payload = JObject [(''error'', JString ''Could not add todo'')]\<rparr>, db'))"

definition patchTodo ::
  "(command \<Rightarrow> 'db \<Rightarrow> json option \<times> 'db) \<Rightarrow> string \<Rightarrow> string \<Rightarrow> request \<Rightarrow> 'db \<Rightarrow> response \<times> 'db" where
  "patchTodo send TABLE_NAME todoId req db =
     (let completed = field ''completed'' (body req);
          params = JObject
            [(''TableName'', JString TABLE_NAME),
             (''Key'', JObject [(''id'', JString todoId)]),
             (''UpdateExpression'', JString ''set completed = :completed''),
             (''ExpressionAttributeValues'', JObject [('':completed'', completed)]),
             (''ReturnValues'', JString ''ALL_NEW'')] in
      case send (UpdateCommand params) db of
        (Some data, db') \<Rightarrow> (\<lparr>status = 200, payload = getProperty ''Attributes'' data\<rparr>, db')
      | (None, db') \<Rightarrow>
          (\<lparr>status = 500, payload = JObject [(''error'', JString ''Could not update todo'')]\<rparr>, db'))"

definition health :: "request \<Rightarrow> 'db \<Rightarrow> response \<times> 'db" where
  "health req db = (\<lparr>status = 200, payload = JObject [(''status'', JString ''ok'')]\<rparr>, db)"

definition notFound :: "request \<Rightarrow> 'db \<Rightarrow> response \<times> 'db" where
  "notFound req db = (\<lparr>status = 404, payload = JObject [(''error'', JString ''Not Found'')]\<rparr>, db)"

text \<open>
  Routing. \<open>app.use('/api', apiRouter)\<close> hands the router the part of the path below
  \<open>/api\<close>; a route's path matches with or without one trailing slash; \<open>:id\<close> is one
  non-empty segment. The path is the request's path without a query string, and is
  compared as written: upper and lower case are not identified. The two middlewares in
  front of the router (JSON body parsing and CORS headers) hand the request on with its
  parsed body. A request that no route answers gets the 404 handler's answer, so the
  static files registered after that handler are never served.
\<close>

definition mounted :: "string \<Rightarrow> string option" where
  "mounted url =
     (if url = ''/api'' then Some ''/''
      else if take 5 url = ''/api/'' then Some (drop 4 url)
      else None)"

definition trimSlash :: "string \<Rightarrow> string" where
  "trimSlash p = (if 1 < length p \<and> last p = CHR ''/'' then butlast p else p)"

definition idParam :: "string \<Rightarrow> string option" where
  "idParam p =
     (let q = trimSlash p in
      if take 7 q = ''/todos/'' \<and> drop 7 q \<noteq> [] \<and> CHR ''/'' \<notin> set (drop 7 q)
      then Some (drop 7 q) else None)"

definition apiRouter ::
  "(command \<Rightarrow> 'db \<Rightarrow> json option \<times> 'db) \<Rightarrow> string \<Rightarrow> string \<Rightarrow> string \<Rightarrow> request \<Rightarrow> 'db
     \<Rightarrow> (response \<times> 'db) option" where
  "apiRouter send TABLE_NAME now p req db =
     (if httpMethod req = ''GET'' \<and> trimSlash p = ''/todos'' then Some (getTodos send TABLE_NAME req db)
      else if httpMethod req = ''POST'' \<and> trimSlash p = ''/todos'' then Some (postTodos send TABLE_NAME now req db)
      else (case (if httpMethod req = ''PATCH'' then idParam p else None) of
              Some todoId \<Rightarrow> Some (patchTodo send TABLE_NAME todoId req db)
            | None \<Rightarrow>
                if httpMethod req = ''GET'' \<and> p = ''/'' then Some (health req db)
                else None))"

definition app ::
  "(command \<Rightarrow> 'db \<Rightarrow> json option \<times> 'db) \<Rightarrow> string \<Rightarrow> string \<Rightarrow> request \<Rightarrow> 'db \<Rightarrow> response \<times> 'db" where
  "app send TABLE_NAME now req db =
     (case mounted (originalUrl req) of
        None \<Rightarrow> notFound req db
      | Some p \<Rightarrow>
          (case apiRouter send TABLE_NAME now p req db of
             Some answer \<Rightarrow> answer
           | None \<Rightarrow> notFound req db))"


section \<open>Deduplication of the validation options\<close>

lemma findIndexFrom_range:
  "findIndexFrom p xs k = - 1 \<or> (int k \<le> findIndexFrom p xs k \<and> findIndexFrom p xs k < int (k + length xs))"
  by (induction xs arbitrary: k) (auto, force+)

lemma findIndexFrom_append_none:
  "\<forall>y\<in>set pre. \<not> p y \<Longrightarrow> findIndexFrom p (pre @ ys) k = findIndexFrom p ys (k + length pre)"
  by (induction pre arbitrary: k) auto

lemma findIndexFrom_append_some:
  "\<exists>y\<in>set pre. p y \<Longrightarrow> findIndexFrom p (pre @ ys) k < int (k + length pre)"
proof (induction pre arbitrary: k)
  case Nil
  then show ?case by simp
next
  case (Cons a pre)
  show ?case
  proof (cases "p a")
    case True
    then show ?thesis by simp
  next
    case False
    with Cons.prems have "\<exists>y\<in>set pre. p y" by simp
    from Cons.IH [OF this, of "Suc k"] False show ?thesis by simp
  qed
qed

lemma findIndex_at_prefix_end:
  "findIndex p (pre @ x # xs) = int (length pre) \<longleftrightarrow> p x \<and> (\<forall>y\<in>set pre. \<not> p y)"
proof (cases "\<exists>y\<in>set pre. p y")
  case True
  from findIndexFrom_append_some [OF this, of "x # xs" 0]
  show ?thesis using True by (auto simp: findIndex_def)
next
  case False
  then have none: "\<forall>y\<in>set pre. \<not> p y" by simp
  have "findIndexFrom p (x # xs) (length pre) = int (length pre) \<longleftrightarrow> p x"
    using findIndexFrom_range [of p xs "Suc (length pre)"] by auto
  then show ?thesis
    using none by (simp add: findIndex_def findIndexFrom_append_none)
qed

lemma sameValidationOption_triple: "sameValidationOption x y \<longleftrightarrow> triple x = triple y"
  by (auto simp: sameValidationOption_def triple_def)

lemma uniqWith_suffix:
  "map fst (filter (\<lambda>(element, index). findIndex (\<lambda>step. sameValidationOption element step) (pre @ xs) = int index)
      (zip xs [length pre..<length pre + length xs]))
   = firstOccurrences (triple ` set pre) xs"
proof (induction xs arbitrary: pre)
  case Nil
  then show ?case by simp
next
  case (Cons x xs)
  have upt: "[length pre..<length pre + length (x # xs)]
      = length pre # [length (pre @ [x])..<length (pre @ [x]) + length xs]"
    by (subst upt_conv_Cons) simp_all
  have here: "findIndex (\<lambda>step. sameValidationOption x step) (pre @ x # xs) = int (length pre)
      \<longleftrightarrow> triple x \<notin> triple ` set pre"
    by (auto simp: findIndex_at_prefix_end sameValidationOption_triple)
  have app: "pre @ x # xs = (pre @ [x]) @ xs" by simp
  have seen: "triple ` set (pre @ [x]) = insert (triple x) (triple ` set pre)" by simp
  have tl: "map fst (filter (\<lambda>(element, index). findIndex (\<lambda>step. sameValidationOption element step) (pre @ x # xs) = int index)
      (zip xs [length (pre @ [x])..<length (pre @ [x]) + length xs]))
      = firstOccurrences (insert (triple x) (triple ` set pre)) xs"
    using Cons.IH [of "pre @ [x]"] by simp
  show ?case
  proof (cases "triple x \<in> triple ` set pre")
    case True
    then have "insert (triple x) (triple ` set pre) = triple ` set pre" by auto
    with True tl here show ?thesis
      unfolding upt by (simp del: upt_Suc length_append)
  next
    case False
    with tl here show ?thesis
      unfolding upt by (simp del: upt_Suc length_append)
  qed
qed

lemma zip_upt_nth: "zip arr [0..<length arr] = map (\<lambda>i. (arr ! i, i)) [0..<length arr]"
  by (rule nth_equalityI) simp_all

lemma uniqWith_firstOccurrences:
  "uniqWith arr sameValidationOption = firstOccurrences {} arr"
  using uniqWith_suffix [of "[]" arr] by (simp add: uniqWith_def filter_indexed_def)

lemma firstOccurrences_set:
  "triple ` set (firstOccurrences seen xs) = triple ` set xs - seen"
  by (induction xs arbitrary: seen) auto

lemma firstOccurrences_distinct: "distinct (map triple (firstOccurrences seen xs))"
  by (induction xs arbitrary: seen) (auto simp: firstOccurrences_set)

lemma firstOccurrences_length:
  "length (firstOccurrences seen xs) = card (triple ` set xs - seen)"
proof -
  have "length (firstOccurrences seen xs) = length (map triple (firstOccurrences seen xs))" by simp
  also have "\<dots> = card (set (map triple (firstOccurrences seen xs)))"
    by (simp only: distinct_card [OF firstOccurrences_distinct])
  also have "\<dots> = card (triple ` set xs - seen)"
    by (simp add: firstOccurrences_set)
  finally show ?thesis .
qed

lemma firstOccurrences_fixed:
  "distinct (map triple ys) \<Longrightarrow> triple ` set ys \<inter> seen = {} \<Longrightarrow> firstOccurrences seen ys = ys"
  by (induction ys arbitrary: seen) auto

lemma findIndex_eq_iff:
  "i < length arr \<Longrightarrow> findIndex p arr = int i \<longleftrightarrow> p (arr ! i) \<and> (\<forall>j<i. \<not> p (arr ! j))"
proof -
  assume i: "i < length arr"
  then have arr: "arr = take i arr @ arr ! i # drop (Suc i) arr"
    by (simp add: id_take_nth_drop)
  have len: "length (take i arr) = i" using i by simp
  have "findIndex p (take i arr @ arr ! i # drop (Suc i) arr) = int (length (take i arr))
      \<longleftrightarrow> p (arr ! i) \<and> (\<forall>y\<in>set (take i arr). \<not> p y)"
    by (rule findIndex_at_prefix_end)
  moreover have "(\<forall>y\<in>set (take i arr). \<not> p y) \<longleftrightarrow> (\<forall>j<i. \<not> p (arr ! j))"
  proof -
    have "set (take i arr) = (\<lambda>j. arr ! j) ` {0..<i}"
      using nth_image [of i arr] i by simp
    then show ?thesis by auto
  qed
  ultimately show ?thesis using arr len by simp
qed

lemma uniqWith_nth:
  "uniqWith arr fn = map (\<lambda>i. arr ! i)
     (filter (\<lambda>i. fn (arr ! i) (arr ! i) \<and> (\<forall>j<i. \<not> fn (arr ! i) (arr ! j))) [0..<length arr])"
proof -
  have "filter (\<lambda>i. findIndex (\<lambda>step. fn (arr ! i) step) arr = int i) [0..<length arr]
      = filter (\<lambda>i. fn (arr ! i) (arr ! i) \<and> (\<forall>j<i. \<not> fn (arr ! i) (arr ! j))) [0..<length arr]"
    by (rule filter_cong) (simp_all add: findIndex_eq_iff)
  then show ?thesis
    by (simp add: uniqWith_def filter_indexed_def zip_upt_nth filter_map comp_def)
qed

text \<open>
  C1. On every list of validation options, \<open>uniqWith\<close> with the program's comparator
  returns the elements at the positions that no earlier equal element precedes, in the
  order of the input: the first occurrences. Two options are equal for the comparator
  exactly when their record type, record name and record value agree, and the length of
  the result is the number of distinct (type, name, value) triples of the input.
\<close>

theorem uniqWith_first_occurrences:
  "uniqWith arr sameValidationOption
     = map (\<lambda>i. arr ! i)
         (filter (\<lambda>i. \<forall>j<i. \<not> sameValidationOption (arr ! i) (arr ! j)) [0..<length arr])
   \<and> uniqWith arr sameValidationOption = firstOccurrences {} arr
   \<and> length (uniqWith arr sameValidationOption) = card (triple ` set arr)
   \<and> (sameValidationOption x y \<longleftrightarrow>
        resourceRecordType x = resourceRecordType y \<and> resourceRecordName x = resourceRecordName y
        \<and> resourceRecordValue x = resourceRecordValue y)"
proof -
  have refl: "\<And>z. sameValidationOption z z"
    by (simp add: sameValidationOption_def)
  have "uniqWith arr sameValidationOption
     = map (\<lambda>i. arr ! i)
         (filter (\<lambda>i. \<forall>j<i. \<not> sameValidationOption (arr ! i) (arr ! j)) [0..<length arr])"
    by (simp add: uniqWith_nth refl)
  moreover have "length (uniqWith arr sameValidationOption) = card (triple ` set arr)"
    by (simp add: uniqWith_firstOccurrences firstOccurrences_length)
  moreover have "sameValidationOption x y \<longleftrightarrow>
        resourceRecordType x = resourceRecordType y \<and> resourceRecordName x = resourceRecordName y
        \<and> resourceRecordValue x = resourceRecordValue y"
    by (auto simp: sameValidationOption_def)
  ultimately show ?thesis
    using uniqWith_firstOccurrences [of arr] by blast
qed

theorem uniqWith_first_occurrences_witness:
  "uniqWith [challengeA, challengeB, challengeA] sameValidationOption = [challengeA, challengeB]
   \<and> length (uniqWith [challengeA, challengeB, challengeA] sameValidationOption) = 2"
proof -
  have "uniqWith [challengeA, challengeB, challengeA] sameValidationOption
      = firstOccurrences {} [challengeA, challengeB, challengeA]"
    using uniqWith_first_occurrences [of "[challengeA, challengeB, challengeA]"] by blast
  then show ?thesis
    by (simp add: challengeA_def challengeB_def triple_def)
qed

text \<open>
  C3. Deduplicating the result of a deduplication changes nothing, and no two elements
  at different positions of a result are equal for the comparator.
\<close>

theorem uniqWith_idempotent:
  "uniqWith (uniqWith arr sameValidationOption) sameValidationOption
     = uniqWith arr sameValidationOption
   \<and> (\<forall>i j. i < j \<and> j < length (uniqWith arr sameValidationOption) \<longrightarrow>
         \<not> sameValidationOption (uniqWith arr sameValidationOption ! i)
                                  (uniqWith arr sameValidationOption ! j))"
proof -
  let ?out = "firstOccurrences {} arr"
  have d: "distinct (map triple ?out)" by (rule firstOccurrences_distinct)
  have "firstOccurrences {} ?out = ?out"
    using d by (simp add: firstOccurrences_fixed)
  moreover have "\<not> sameValidationOption (?out ! i) (?out ! j)" if "i < j" "j < length ?out" for i j
  proof -
    from that have "map triple ?out ! i \<noteq> map triple ?out ! j"
      using d by (simp add: distinct_conv_nth del: nth_map)
    with that show ?thesis by (simp add: sameValidationOption_triple)
  qed
  ultimately show ?thesis
    by (simp add: uniqWith_firstOccurrences)
qed

theorem uniqWith_idempotent_witness:
  "uniqWith (uniqWith [challengeA, challengeB, challengeA] sameValidationOption) sameValidationOption
     = [challengeA, challengeB]
   \<and> \<not> sameValidationOption (uniqWith [challengeA, challengeB, challengeA] sameValidationOption ! 0)
                             (uniqWith [challengeA, challengeB, challengeA] sameValidationOption ! 1)"
proof -
  let ?arr = "[challengeA, challengeB, challengeA]"
  have out: "uniqWith ?arr sameValidationOption = [challengeA, challengeB]"
    by (simp add: uniqWith_firstOccurrences challengeA_def challengeB_def triple_def)
  have len: "(0::nat) < 1 \<and> 1 < length (uniqWith ?arr sameValidationOption)"
    by (simp add: out)
  from uniqWith_idempotent [of ?arr] len
  have "uniqWith (uniqWith ?arr sameValidationOption) sameValidationOption
          = uniqWith ?arr sameValidationOption"
    and "\<not> sameValidationOption (uniqWith ?arr sameValidationOption ! 0)
                                 (uniqWith ?arr sameValidationOption ! 1)"
    by blast+
  then show ?thesis by (simp add: out)
qed


section \<open>Facts about the programs and their runs\<close>

lemma map_indexed_nth:
  "map_indexed f arr = map (\<lambda>i. f (arr ! i) i) [0..<length arr]"
  by (simp add: map_indexed_def zip_upt_nth comp_def)

lemma length_map_indexed: "length (map_indexed f arr) = length arr"
  by (simp add: map_indexed_nth)

lemma nth_map_indexed: "i < length arr \<Longrightarrow> map_indexed f arr ! i = f (arr ! i) i"
  by (simp add: map_indexed_nth)

lemma map_map_indexed_const:
  "(\<And>x i. g (f x i) = h x) \<Longrightarrow> map g (map_indexed f arr) = map h arr"
  by (rule nth_equalityI) (simp_all add: map_indexed_nth)

lemma filter_map_indexed_none:
  "(\<And>x i. \<not> Q (f x i)) \<Longrightarrow> filter Q (map_indexed f arr) = []"
  by (simp add: map_indexed_nth filter_empty_conv)

lemma validationRecords_triples:
  "map (\<lambda>d. recordTriple (args d)) (validationRecords validationOptions)
     = map (\<lambda>x. Some (triple x)) (uniqWith validationOptions sameValidationOption)"
  unfolding validationRecords_def
  by (rule map_map_indexed_const) (simp add: triple_def)

lemma length_validationRecords:
  "length (validationRecords validationOptions) = card (triple ` set validationOptions)"
  by (simp add: validationRecords_def length_map_indexed uniqWith_firstOccurrences
      firstOccurrences_length)

lemma length_certificateValidations:
  "length (certificateValidations validationOptions) = length (validationRecords validationOptions)"
  by (simp add: certificateValidations_def length_map_indexed)

lemma count_in_distinct:
  "distinct ys \<Longrightarrow> y \<in> set ys \<Longrightarrow> length (filter (\<lambda>z. z = y) ys) = 1"
  by (induction ys) (auto simp: filter_empty_conv)

lemma one_record_per_triple:
  assumes "x \<in> set validationOptions"
  shows "length (filter (\<lambda>d. recordTriple (args d) = Some (triple x)) (validationRecords validationOptions)) = 1"
proof -
  let ?out = "firstOccurrences {} validationOptions"
  let ?ts = "map (\<lambda>d. recordTriple (args d)) (validationRecords validationOptions)"
  have ts: "?ts = map Some (map triple ?out)"
    by (simp add: validationRecords_triples uniqWith_firstOccurrences comp_def)
  have "distinct ?ts"
    unfolding ts using firstOccurrences_distinct [of "{}" validationOptions]
    by (subst distinct_map) simp
  moreover have "Some (triple x) \<in> set ?ts"
    unfolding ts using assms firstOccurrences_set [of "{}" validationOptions]
    by (simp del: map_map)
  ultimately have "length (filter (\<lambda>z. z = Some (triple x)) ?ts) = 1"
    by (rule count_in_distinct)
  then show ?thesis
    by (simp add: filter_map comp_def)
qed


lemma filter_validationRecords:
  "(\<And>n z t ttl rs al. \<not> Q (Record n z t ttl rs al))
     \<Longrightarrow> filter (\<lambda>d. Q (args d)) (validationRecords validationOptions) = []"
  unfolding validationRecords_def by (rule filter_map_indexed_none) simp

lemma filter_certificateValidations:
  "(\<And>c fs. \<not> Q (CertificateValidation c fs))
     \<Longrightarrow> filter (\<lambda>d. Q (args d)) (certificateValidations validationOptions) = []"
  unfolding certificateValidations_def by (rule filter_map_indexed_none) simp

lemmas static_defs =
  new_def group_sg_def alb_def todoAppTg_def todoApiTg_def ecsTaskInitializationRole_def rpa_def
  cluster_def httpsRedirectListener_def YOUR_DOMAIN_def certificate_def hostedZoneAlbRecord_def
  todoListener_def todoApiListenerRule_def ecrRepo_def todoAppImage_def todoApiImage_def
  allowImageAccess_def taskExecutionRolePolicyAttachment_def logGroup_def logOptions_def
  todoAppTask_def todoTable_def allowTableAccess_def ecsTaskRole_def
  allowTableAccessPolicyAttachment_def todoApiTask_def todoAppService_def todoApiService_def
  todoAppScalingTarget_def todoAppScalingPolicy_def todoApiScalingTarget_def
  todoApiScalingPolicy_def

lemmas static_defs_03 =
  new_def group_sg_def alb_def atg_def role_def rpa_03_def cluster_03_def wl_def YOUR_DOMAIN_def
  certificate_def hostedZoneAlbRecord_def secureWebListener_def ecrRepo_03_def websiteImage_def
  allowImageAccess_03_def taskExecutionRolePolicyAttachment_03_def logGroup_def logOptions_def
  taskDefinition_def service_def

lemma services_program: "services (program validationOptions) = [todoAppService, todoApiService]"
  unfolding services_def program_def filter_append
  by (simp add: filter_validationRecords [of is_Service] filter_certificateValidations [of is_Service]
        static_defs)

lemma services_program_03: "services (program_03 validationOptions) = [service]"
  unfolding services_def program_03_def filter_append
  by (simp add: filter_validationRecords [of is_Service] filter_certificateValidations [of is_Service]
        static_defs_03)

lemma listeners_program:
  "listeners (program validationOptions) = [httpsRedirectListener, todoListener]"
  unfolding listeners_def program_def filter_append
  by (simp add: filter_validationRecords [of is_Listener] filter_certificateValidations [of is_Listener]
        static_defs)

lemma listeners_program_03: "listeners (program_03 validationOptions) = [wl, secureWebListener]"
  unfolding listeners_def program_03_def filter_append
  by (simp add: filter_validationRecords [of is_Listener] filter_certificateValidations [of is_Listener]
        static_defs_03)

lemma rules_program: "rules (program validationOptions) = [todoApiListenerRule]"
  unfolding rules_def program_def filter_append
  by (simp add: filter_validationRecords [of is_ListenerRule]
        filter_certificateValidations [of is_ListenerRule]
        static_defs)

lemma rules_program_03: "rules (program_03 validationOptions) = []"
  unfolding rules_def program_03_def filter_append
  by (simp add: filter_validationRecords [of is_ListenerRule]
        filter_certificateValidations [of is_ListenerRule]
        static_defs_03)

lemma rulesFor_program:
  "rulesFor (program validationOptions) s
     = (if Ref ''todo-api-tg'' ''arn'' \<in> set (targetGroups (args s)) then [todoApiListenerRule] else [])"
  unfolding rulesFor_def program_def filter_append
  by (simp add:
        filter_validationRecords [of "\<lambda>a. list_ex (\<lambda>t. t \<in> set (targetGroups (args s))) (ruleTargets a)"]
        filter_certificateValidations [of "\<lambda>a. list_ex (\<lambda>t. t \<in> set (targetGroups (args s))) (ruleTargets a)"]
        static_defs)

lemma rulesFor_program_03: "rulesFor (program_03 validationOptions) s = []"
  unfolding rulesFor_def program_03_def filter_append
  by (simp add:
        filter_validationRecords [of "\<lambda>a. list_ex (\<lambda>t. t \<in> set (targetGroups (args s))) (ruleTargets a)"]
        filter_certificateValidations [of "\<lambda>a. list_ex (\<lambda>t. t \<in> set (targetGroups (args s))) (ruleTargets a)"]
        static_defs_03)


lemma precedes_Cons:
  "precedes x y (z # r) \<longleftrightarrow> z \<noteq> y \<and> (x = z \<or> precedes x y r)"
  by (auto simp: precedes_def)

lemma precedes_in_run: "precedes x y r \<Longrightarrow> x \<in> set r"
  unfolding precedes_def by (auto dest: set_takeWhileD)

lemma run_from_dep:
  "run_from P created r \<Longrightarrow> d \<in> set P \<Longrightarrow> name d \<in> set r \<Longrightarrow> x \<in> set (deps d)
     \<Longrightarrow> x \<in> set created \<or> precedes x (name d) r"
proof (induction r arbitrary: created)
  case Nil
  then show ?case by simp
next
  case (Cons z r)
  from Cons.prems(1) have rdy: "ready P created z" and rest: "run_from P (created @ [z]) r"
    by simp_all
  show ?case
  proof (cases "z = name d")
    case True
    with rdy Cons.prems(2) have "list_all (\<lambda>y. y \<in> set created) (deps d)"
      by (auto simp: ready_def list_all_iff)
    with Cons.prems(4) show ?thesis by (simp add: list_all_iff)
  next
    case False
    with Cons.prems(3) have "name d \<in> set r" by auto
    from Cons.IH [OF rest Cons.prems(2) this Cons.prems(4)]
    show ?thesis using False by (auto simp: precedes_Cons)
  qed
qed

lemma valid_run_dep:
  "valid_run P r \<Longrightarrow> d \<in> set P \<Longrightarrow> name d \<in> set r \<Longrightarrow> x \<in> set (deps d)
     \<Longrightarrow> precedes x (name d) r"
  using run_from_dep [of P "[]" r d x] by (simp add: valid_run_def)


lemma run_from_known:
  "run_from P created r \<Longrightarrow> x \<in> set r \<Longrightarrow> x \<in> name ` set P"
  by (induction r arbitrary: created) (auto simp: ready_def)

lemma valid_run_known: "valid_run P r \<Longrightarrow> x \<in> set r \<Longrightarrow> \<exists>d\<in>set P. name d = x"
  using run_from_known [of P "[]" r x] by (auto simp: valid_run_def)

lemma deps_todoListener:
  "deps todoListener = [''app-lb'', ''alb-certificate'', ''todo-app-tg'']"
  by (simp add: deps_def todoListener_def new_def)


lemma deps_todoAppService:
  "deps todoAppService = [''aws-by-example'', ''todo-app-task'', ''web-secgrp'', ''todo-app-tg'',
     ''https-redirect-listener'', ''todo-listener'']"
  by (simp add: deps_def todoAppService_def new_def)

lemma deps_todoApiService:
  "deps todoApiService = [''aws-by-example'', ''todo-api-task'', ''web-secgrp'', ''todo-api-tg'',
     ''https-redirect-listener'', ''todo-listener'', ''api-rule'']"
  by (simp add: deps_def todoApiService_def new_def)

lemma deps_service:
  "deps service = [''cluster'', ''website-task'', ''web-secgrp'', ''app-tg'', ''web'', ''https-web'']"
  by (simp add: deps_def service_def new_def)

lemma deps_secureWebListener:
  "deps secureWebListener = [''app-lb'', ''alb-certificate'', ''app-tg'']"
  by (simp add: deps_def secureWebListener_def new_def)

lemma in_program:
  "todoListener \<in> set (program validationOptions)"
  "todoApiListenerRule \<in> set (program validationOptions)"
  "todoAppService \<in> set (program validationOptions)"
  "todoApiService \<in> set (program validationOptions)"
  "httpsRedirectListener \<in> set (program validationOptions)"
  "todoAppScalingTarget \<in> set (program validationOptions)"
  "todoAppScalingPolicy \<in> set (program validationOptions)"
  "todoApiScalingTarget \<in> set (program validationOptions)"
  "todoApiScalingPolicy \<in> set (program validationOptions)"
  by (simp_all add: program_def)

lemma in_program_03:
  "secureWebListener \<in> set (program_03 validationOptions)"
  "service \<in> set (program_03 validationOptions)"
  by (simp_all add: program_03_def)

lemma names:
  "name todoListener = ''todo-listener''"
  "name todoApiListenerRule = ''api-rule''"
  "name todoAppService = ''todo-app-service''"
  "name todoApiService = ''todo-api-service''"
  "name httpsRedirectListener = ''https-redirect-listener''"
  "name wl = ''web''"
  "name secureWebListener = ''https-web''"
  "name service = ''website-service''"
  "name todoAppScalingTarget = ''todo-app-service-scaling-target''"
  "name todoAppScalingPolicy = ''todo-app-scaledown-policy''"
  "name todoApiScalingTarget = ''todo-api-service-scaling-target''"
  "name todoApiScalingPolicy = ''todo-api-scaledown-policy''"
  by (simp_all add: static_defs static_defs_03)

lemma string_of_nat_0: "string_of_nat 0 = ''0''"
  by code_simp

lemma valid_apiRun: "valid_run (program [challengeA]) apiRun"
  by code_simp

lemma valid_pendingRun: "valid_run (program [challengeA]) pendingRun"
  by code_simp

lemma secureListeners_program: "secureListeners (program validationOptions) = [todoListener]"
  unfolding secureListeners_def program_def filter_append
  by (simp add: filter_validationRecords [of "\<lambda>a. listenerPort a = Some 443"]
        filter_certificateValidations [of "\<lambda>a. listenerPort a = Some 443"]
        static_defs)

lemma secureListeners_program_03:
  "secureListeners (program_03 validationOptions) = [secureWebListener]"
  unfolding secureListeners_def program_03_def filter_append
  by (simp add: filter_validationRecords [of "\<lambda>a. listenerPort a = Some 443"]
        filter_certificateValidations [of "\<lambda>a. listenerPort a = Some 443"]
        static_defs_03)





lemma string_of_nat_small: "n < 10 \<Longrightarrow> string_of_nat n = [char_of (48 + n)]"
  by (subst string_of_nat.simps) simp

lemma string_of_nat_large:
  "\<not> n < 10 \<Longrightarrow> string_of_nat n = string_of_nat (n div 10) @ [char_of (48 + n mod 10)]"
  by (subst string_of_nat.simps) simp

lemma string_of_nat_nonempty: "string_of_nat n \<noteq> []"
  by (cases "n < 10") (simp_all add: string_of_nat_small string_of_nat_large)

lemma digit_inj:
  assumes "a < 10" and "b < 10" and "(char_of (48 + a :: nat) :: char) = char_of (48 + b)"
  shows "a = b"
proof -
  from assms(3) have "(of_char (char_of (48 + a) :: char) :: nat) = of_char (char_of (48 + b) :: char)"
    by (rule arg_cong)
  then have "(48 + a) mod 256 = (48 + b) mod 256"
    by (simp only: of_char_of)
  moreover have "(48 + a) mod 256 = 48 + a" "(48 + b) mod 256 = 48 + b"
    using assms(1,2) by (simp_all only: mod_less) 
  ultimately show ?thesis by linarith
qed


lemma string_of_nat_inj: "string_of_nat n = string_of_nat m \<Longrightarrow> n = m"
proof (induction n arbitrary: m rule: less_induct)
  case (less n)
  show ?case
  proof (cases "n < 10")
    case n: True
    show ?thesis
    proof (cases "m < 10")
      case True
      with n less.prems have "(char_of (48 + n) :: char) = char_of (48 + m)"
        by (simp add: string_of_nat_small)
      with n True show ?thesis by (rule digit_inj)
    next
      case False
      with n less.prems string_of_nat_nonempty [of "m div 10"] show ?thesis
        by (simp add: string_of_nat_small string_of_nat_large)
    qed
  next
    case n: False
    show ?thesis
    proof (cases "m < 10")
      case True
      with n less.prems string_of_nat_nonempty [of "n div 10"] show ?thesis
        by (simp add: string_of_nat_small string_of_nat_large)
    next
      case False
      with n less.prems have s: "string_of_nat (n div 10) = string_of_nat (m div 10)"
        and c: "(char_of (48 + n mod 10) :: char) = char_of (48 + m mod 10)"
        by (simp_all add: string_of_nat_large)
      from n have "n div 10 < n" by simp
      from less.IH [OF this s] have d: "n div 10 = m div 10" .
      have "n mod 10 = m mod 10"
        by (rule digit_inj [OF _ _ c]) simp_all
      with d show ?thesis by (metis div_mult_mod_eq)
    qed
  qed
qed


lemma callback_names_distinct:
  "distinct (map name (validationRecords validationOptions @ certificateValidations validationOptions))"
proof -
  have recs: "map name (validationRecords validationOptions)
      = map (\<lambda>i. (YOUR_DOMAIN @ ''-cert-validation-record-'') @ string_of_nat i)
          [0..<length (validationRecords validationOptions)]"
    by (simp add: validationRecords_def map_indexed_nth)
  have vals: "map name (certificateValidations validationOptions)
      = map (\<lambda>i. (YOUR_DOMAIN @ ''-cert-dns-validation-'') @ string_of_nat i)
          [0..<length (certificateValidations validationOptions)]"
    by (simp add: certificateValidations_def map_indexed_nth)
  have "distinct (map name (validationRecords validationOptions))"
    unfolding recs by (subst distinct_map) (auto intro!: inj_onI dest: string_of_nat_inj)
  moreover have "distinct (map name (certificateValidations validationOptions))"
    unfolding vals by (subst distinct_map) (auto intro!: inj_onI dest: string_of_nat_inj)
  moreover have "set (map name (validationRecords validationOptions))
      \<inter> set (map name (certificateValidations validationOptions)) = {}"
    unfolding recs vals by (auto simp: YOUR_DOMAIN_def)
  ultimately show ?thesis by simp
qed

lemma scalingTargetsFor_program:
  "scalingTargetsFor (program validationOptions) s
     = (if name s = ''todo-app-service'' then [todoAppScalingTarget] else [])
       @ (if name s = ''todo-api-service'' then [todoApiScalingTarget] else [])"
  unfolding scalingTargetsFor_def program_def filter_append
  by (simp add: filter_validationRecords [of "scalesService (name s)"]
        filter_certificateValidations [of "scalesService (name s)"]
        static_defs)

lemma policiesFor_program:
  "policiesFor (program validationOptions) t
     = (if name t = ''todo-app-service-scaling-target'' then [todoAppScalingPolicy] else [])
       @ (if name t = ''todo-api-service-scaling-target'' then [todoApiScalingPolicy] else [])"
  unfolding policiesFor_def program_def filter_append
  by (simp add: filter_validationRecords [of "policyOf (name t)"]
        filter_certificateValidations [of "policyOf (name t)"]
        static_defs)

lemma step_policies_program:
  "filter (\<lambda>d. stepAdjustments (args d) \<noteq> []) (program validationOptions)
     = [todoAppScalingPolicy, todoApiScalingPolicy]"
  unfolding program_def filter_append
  by (simp add: filter_validationRecords [of "\<lambda>a. stepAdjustments a \<noteq> []"]
        filter_certificateValidations [of "\<lambda>a. stepAdjustments a \<noteq> []"]
        static_defs)

lemma deps_scaling:
  "deps todoAppScalingTarget = [''aws-by-example'', ''todo-app-service'']"
  "deps todoApiScalingTarget = [''aws-by-example'', ''todo-api-service'']"
  "set (deps todoAppScalingPolicy) = {''todo-app-service-scaling-target''}"
  "set (deps todoApiScalingPolicy) = {''todo-api-service-scaling-target''}"
  by (simp_all add: deps_def static_defs)

lemma filter_map_indexed_all:
  "(\<And>x i. Q (f x i)) \<Longrightarrow> filter Q (map_indexed f arr) = map_indexed f arr"
  by (simp add: map_indexed_nth)

lemma callback_resources:
  "filter (\<lambda>d. applied d \<noteq> []) (program validationOptions)
     = validationRecords validationOptions @ certificateValidations validationOptions"
  "filter (\<lambda>d. applied d \<noteq> []) (program_03 validationOptions)
     = validationRecords validationOptions @ certificateValidations validationOptions"
proof -
  have r: "filter (\<lambda>d. applied d \<noteq> []) (validationRecords validationOptions)
      = validationRecords validationOptions"
    unfolding validationRecords_def by (rule filter_map_indexed_all) simp
  have v: "filter (\<lambda>d. applied d \<noteq> []) (certificateValidations validationOptions)
      = certificateValidations validationOptions"
    unfolding certificateValidations_def by (rule filter_map_indexed_all) simp
  show "filter (\<lambda>d. applied d \<noteq> []) (program validationOptions)
     = validationRecords validationOptions @ certificateValidations validationOptions"
    unfolding program_def filter_append r v by (simp add: static_defs)
  show "filter (\<lambda>d. applied d \<noteq> []) (program_03 validationOptions)
     = validationRecords validationOptions @ certificateValidations validationOptions"
    unfolding program_03_def filter_append r v by (simp add: static_defs_03)
qed

section \<open>The certificate pipeline\<close>

text \<open>
  C2. Whatever validation options the certificate authority returns, the callback
  creates as many DNS records, and as many certificate validations, as the options have
  distinct (type, name, value) triples; every option's triple is published by exactly one
  of the records, every record publishes the triple of an option, the validation with
  index \<open>i\<close> waits on the \<open>fqdn\<close> of the record with index \<open>i\<close>, and no two of these
  resources have the same name. They are all that the program creates inside the
  callback. For three options of which two are the same, that is two records and two
  validations.
\<close>

theorem one_record_and_wait_per_triple:
  "length (validationRecords validationOptions) = card (triple ` set validationOptions)
   \<and> length (certificateValidations validationOptions) = card (triple ` set validationOptions)
   \<and> (\<forall>x\<in>set validationOptions.
         length (filter (\<lambda>d. recordTriple (args d) = Some (triple x))
                   (validationRecords validationOptions)) = 1)
   \<and> (\<forall>d\<in>set (validationRecords validationOptions).
         \<exists>x\<in>set validationOptions. recordTriple (args d) = Some (triple x))
   \<and> (\<forall>i<length (validationRecords validationOptions).
         args (certificateValidations validationOptions ! i)
           = CertificateValidation (Ref ''alb-certificate'' ''arn'')
               [Ref (name (validationRecords validationOptions ! i)) ''fqdn''])
   \<and> distinct (map name (validationRecords validationOptions @ certificateValidations validationOptions))
   \<and> filter (\<lambda>d. applied d \<noteq> []) (program validationOptions)
       = validationRecords validationOptions @ certificateValidations validationOptions"
proof -
  let ?recs = "validationRecords validationOptions"
  let ?out = "uniqWith validationOptions sameValidationOption"
  have a: "length ?recs = card (triple ` set validationOptions)"
    by (rule length_validationRecords)
  have b: "length (certificateValidations validationOptions) = card (triple ` set validationOptions)"
    by (simp add: length_certificateValidations length_validationRecords)
  have c: "\<forall>x\<in>set validationOptions.
         length (filter (\<lambda>d. recordTriple (args d) = Some (triple x)) ?recs) = 1"
    by (simp add: one_record_per_triple)
  have d: "\<forall>d\<in>set ?recs. \<exists>x\<in>set validationOptions. recordTriple (args d) = Some (triple x)"
  proof
    fix d assume "d \<in> set ?recs"
    then have "recordTriple (args d) \<in> set (map (\<lambda>d. recordTriple (args d)) ?recs)" by simp
    then have "recordTriple (args d) \<in> (\<lambda>x. Some (triple x)) ` set (firstOccurrences {} validationOptions)"
      by (simp only: validationRecords_triples uniqWith_firstOccurrences set_map)
    then obtain y where y: "y \<in> set (firstOccurrences {} validationOptions)"
      and eq: "recordTriple (args d) = Some (triple y)" by auto
    from y have "triple y \<in> triple ` set validationOptions"
      using firstOccurrences_set [of "{}" validationOptions] by auto
    with eq show "\<exists>x\<in>set validationOptions. recordTriple (args d) = Some (triple x)" by auto
  qed
  have e: "\<forall>i<length ?recs.
         args (certificateValidations validationOptions ! i)
           = CertificateValidation (Ref ''alb-certificate'' ''arn'') [Ref (name (?recs ! i)) ''fqdn'']"
    by (simp add: certificateValidations_def nth_map_indexed)
  from a b c d e callback_names_distinct [of validationOptions]
    callback_resources(1) [of validationOptions]
  show ?thesis by blast
qed

theorem one_record_and_wait_per_triple_witness:
  "length (validationRecords [challengeA, challengeB, challengeA]) = 2
   \<and> length (certificateValidations [challengeA, challengeB, challengeA]) = 2
   \<and> length (filter (\<lambda>d. recordTriple (args d) = Some (triple challengeA))
                (validationRecords [challengeA, challengeB, challengeA])) = 1
   \<and> length (filter (\<lambda>d. recordTriple (args d) = Some (triple challengeB))
                (validationRecords [challengeA, challengeB, challengeA])) = 1"
proof -
  have card: "card (triple ` set [challengeA, challengeB, challengeA]) = 2"
    by code_simp
  from one_record_and_wait_per_triple [of "[challengeA, challengeB, challengeA]"] card
  show ?thesis by simp
qed

section \<open>The secure listener and the certificate\<close>

text \<open>
  C5, as the specification states it: in every run in which a validation is still
  pending, no secure listener exists. The program does not have this property. The
  secure listener reads the \<open>arn\<close> of the certificate resource, not of a certificate
  validation, and nothing else makes it wait for the callback's resources: the run
  \<open>pendingRun\<close> creates the secure listener while the only validation is pending.
\<close>

theorem secure_listener_not_gated_counterexample:
  "valid_run (program [challengeA]) pendingRun
   \<and> \<not> validated (program [challengeA]) pendingRun
   \<and> secureListenerCreated (program [challengeA]) pendingRun"
  by code_simp

text \<open>
  C5, amended. A secure listener of the multi-service program waits for exactly three
  resources, the load balancer, the certificate and the primary target group, and in
  every run that contains the listener those three were created before it. The
  validation records and the certificate validations are not among them.
\<close>

theorem secure_listener_waits_for_certificate_only:
  assumes "valid_run (program validationOptions) r"
    and "l \<in> set (secureListeners (program validationOptions))"
    and "name l \<in> set r"
  shows "deps l = [''app-lb'', ''alb-certificate'', ''todo-app-tg'']
    \<and> precedes ''app-lb'' (name l) r
    \<and> precedes ''alb-certificate'' (name l) r
    \<and> precedes ''todo-app-tg'' (name l) r"
proof -
  from assms(2) have l: "l = todoListener" by (simp add: secureListeners_program)
  have "precedes x (name l) r" if "x \<in> set (deps l)" for x
    using valid_run_dep [OF assms(1) in_program(1) [of validationOptions], of x] assms(3) that l
    by (simp add: names)
  then show ?thesis by (simp add: l deps_todoListener)
qed

theorem secure_listener_waits_for_certificate_only_witness:
  "valid_run (program [challengeA]) pendingRun
   \<and> todoListener \<in> set (secureListeners (program [challengeA]))
   \<and> name todoListener \<in> set pendingRun
   \<and> deps todoListener = [''app-lb'', ''alb-certificate'', ''todo-app-tg'']
   \<and> precedes ''app-lb'' (name todoListener) pendingRun
   \<and> precedes ''alb-certificate'' (name todoListener) pendingRun
   \<and> precedes ''todo-app-tg'' (name todoListener) pendingRun"
proof -
  have a: "valid_run (program [challengeA]) pendingRun" by (rule valid_pendingRun)
  have b: "todoListener \<in> set (secureListeners (program [challengeA]))"
    by (simp add: secureListeners_program)
  have c: "name todoListener \<in> set pendingRun" by (simp add: names pendingRun_def)
  from secure_listener_waits_for_certificate_only [OF a b c] a b c show ?thesis by simp
qed



section \<open>Services, listeners and routing\<close>

text \<open>
  C7. In every run of either program and for every service of the program that the run
  has created, each listener of the program (the plain one on port 80 and the secure one
  on port 443) and each routing rule that forwards to the service's target group was
  created before the service, whatever order the engine chose.
\<close>

theorem service_after_listeners_and_rule:
  assumes "P = program validationOptions \<or> P = program_03 validationOptions"
    and "valid_run P r"
    and "s \<in> set (services P)"
    and "name s \<in> set r"
  shows "(\<forall>x\<in>set (listeners P) \<union> set (rulesFor P s). precedes (name x) (name s) r)
    \<and> list_ex (\<lambda>l. listenerPort (args l) = Some 80) (listeners P)
    \<and> list_ex (\<lambda>l. listenerPort (args l) = Some 443) (listeners P)"
proof -
  have before: "precedes x (name s) r" if "x \<in> set (deps s)" for x
  proof -
    from assms(3) have "s \<in> set P" by (simp add: services_def)
    from valid_run_dep [OF assms(2) this assms(4) that] show ?thesis .
  qed
  from assms(1) show ?thesis
  proof
    assume P: "P = program validationOptions"
    with assms(3) have "s = todoAppService \<or> s = todoApiService"
      by (simp add: services_program)
    then show ?thesis
    proof
      assume s: "s = todoAppService"
      have "rulesFor P s = []"
        by (simp add: P s rulesFor_program) (simp add: todoAppService_def new_def)
      moreover have "precedes ''https-redirect-listener'' (name s) r"
        and "precedes ''todo-listener'' (name s) r"
        by (rule before, simp add: s deps_todoAppService)+
      ultimately show ?thesis
        by (simp add: P listeners_program names) (simp add: static_defs)
    next
      assume s: "s = todoApiService"
      have "rulesFor P s = [todoApiListenerRule]"
        by (simp add: P s rulesFor_program) (simp add: todoApiService_def new_def)
      moreover have "precedes ''https-redirect-listener'' (name s) r"
        and "precedes ''todo-listener'' (name s) r"
        and "precedes ''api-rule'' (name s) r"
        by (rule before, simp add: s deps_todoApiService)+
      ultimately show ?thesis
        by (simp add: P listeners_program names) (simp add: static_defs)
    qed
  next
    assume P: "P = program_03 validationOptions"
    with assms(3) have s: "s = service" by (simp add: services_program_03)
    have "precedes ''web'' (name s) r" and "precedes ''https-web'' (name s) r"
      by (rule before, simp add: s deps_service)+
    then show ?thesis
      by (simp add: P listeners_program_03 rulesFor_program_03 names) (simp add: static_defs_03)
  qed
qed

theorem service_after_listeners_and_rule_witness:
  "valid_run (program [challengeA]) apiRun
   \<and> todoApiService \<in> set (services (program [challengeA]))
   \<and> name todoApiService \<in> set apiRun
   \<and> set (listeners (program [challengeA])) \<union> set (rulesFor (program [challengeA]) todoApiService)
       = {httpsRedirectListener, todoListener, todoApiListenerRule}
   \<and> precedes ''https-redirect-listener'' ''todo-api-service'' apiRun
   \<and> precedes ''todo-listener'' ''todo-api-service'' apiRun
   \<and> precedes ''api-rule'' ''todo-api-service'' apiRun"
proof -
  let ?P = "program [challengeA]"
  have a: "?P = program [challengeA] \<or> ?P = program_03 [challengeA]" by simp
  have b: "valid_run ?P apiRun" by (rule valid_apiRun)
  have c: "todoApiService \<in> set (services ?P)" by (simp add: services_program)
  have d: "name todoApiService \<in> set apiRun" by (simp add: names apiRun_def)
  have e: "set (listeners ?P) \<union> set (rulesFor ?P todoApiService)
       = {httpsRedirectListener, todoListener, todoApiListenerRule}"
    by (simp add: listeners_program rulesFor_program) (simp add: todoApiService_def new_def)
  from service_after_listeners_and_rule [OF a b c d]
  have "\<forall>x\<in>set (listeners ?P) \<union> set (rulesFor ?P todoApiService).
      precedes (name x) (name todoApiService) apiRun" by blast
  then have "precedes ''https-redirect-listener'' ''todo-api-service'' apiRun
      \<and> precedes ''todo-listener'' ''todo-api-service'' apiRun
      \<and> precedes ''api-rule'' ''todo-api-service'' apiRun"
    unfolding e by (simp add: names)
  with b c d e show ?thesis by blast
qed

text \<open>
  C8. In both programs the only secure listener has one default action, which forwards
  to the target group of the first service of the program text. In the multi-service
  program no listener's default action forwards to the target group of a later service,
  and exactly one routing rule does; with the two services \<open>todo-app\<close> and \<open>todo-api\<close>
  the default action targets the app target group and the only rule, of priority 10 and
  path pattern \<open>/api/*\<close>, targets the api target group.
\<close>

theorem default_action_targets_primary_service:
  "(case services (program validationOptions) of
      [] \<Rightarrow> False
    | primary # others \<Rightarrow>
        map (\<lambda>l. defaultTargets (args l)) (secureListeners (program validationOptions))
          = [targetGroups (args primary)]
        \<and> list_all
            (\<lambda>s. list_all (\<lambda>l. list_all (\<lambda>t. t \<notin> set (targetGroups (args s))) (defaultTargets (args l)))
                   (listeners (program validationOptions))
                 \<and> length (rulesFor (program validationOptions) s) = 1)
            others)
   \<and> (case services (program_03 validationOptions) of
      [] \<Rightarrow> False
    | primary # others \<Rightarrow>
        map (\<lambda>l. defaultTargets (args l)) (secureListeners (program_03 validationOptions))
          = [targetGroups (args primary)]
        \<and> others = [])
   \<and> map name (services (program validationOptions)) = [''todo-app-service'', ''todo-api-service'']
   \<and> targetGroups (args todoAppService) = [Ref ''todo-app-tg'' ''arn'']
   \<and> targetGroups (args todoApiService) = [Ref ''todo-api-tg'' ''arn'']
   \<and> map (\<lambda>l. defaultTargets (args l)) (secureListeners (program validationOptions))
       = [[Ref ''todo-app-tg'' ''arn'']]
   \<and> map args (rules (program validationOptions))
       = [ListenerRule (Ref ''todo-listener'' ''listenerArn'') [Forward (Ref ''todo-api-tg'' ''arn'')]
            [[''/api/*'']] 10]
   \<and> rulesFor (program validationOptions) todoApiService = rules (program validationOptions)
   \<and> rulesFor (program validationOptions) todoAppService = []"
  unfolding services_program services_program_03 secureListeners_program secureListeners_program_03
    listeners_program rules_program rulesFor_program
  by (simp add: static_defs static_defs_03)

section \<open>Autoscaling\<close>

text \<open>
  C9. For every service of the multi-service program there is exactly one scaling
  target, with maximum capacity 10 and minimum capacity 1, whose resource id names the
  service, and exactly one policy on that target: a step-scaling policy that changes the
  capacity, with cooldown 60, whose only step has the upper bound 0, no lower bound and
  the adjustment -1. In every run the service is created before its scaling target and
  the target before its policy. No policy of the program has a step with an adjustment
  that is not negative.
\<close>

theorem autoscaling_per_service:
  "list_all
     (\<lambda>s. case scalingTargetsFor (program validationOptions) s of
          [t] \<Rightarrow>
            args t = Target 10 1
                       [Lit ''service/'', Ref ''aws-by-example'' ''clusterName'', Lit ''/'',
                        Ref (name s) ''serviceName'']
                       ''ecs:service:DesiredCount'' ''ecs''
            \<and> (case policiesFor (program validationOptions) t of
                 [p] \<Rightarrow>
                   args p = Policy ''StepScaling'' (Ref (name t) ''resourceId'')
                              (Ref (name t) ''scalableDimension'') (Ref (name t) ''serviceNamespace'')
                              ''ChangeInCapacity'' 60 ''Maximum''
                              [StepAdjustment None (Some ''0'') (- 1)]
                   \<and> (valid_run (program validationOptions) r \<and> name p \<in> set r \<longrightarrow>
                        precedes (name s) (name t) r \<and> precedes (name t) (name p) r)
               | _ \<Rightarrow> False)
        | _ \<Rightarrow> False)
     (services (program validationOptions))
   \<and> map name (services (program validationOptions)) = [''todo-app-service'', ''todo-api-service'']
   \<and> list_all (\<lambda>d. list_all (\<lambda>st. scalingAdjustment st < 0) (stepAdjustments (args d)))
        (filter (\<lambda>d. stepAdjustments (args d) \<noteq> []) (program validationOptions))"
proof -
  let ?P = "program validationOptions"
  have app: "precedes ''todo-app-service'' ''todo-app-service-scaling-target'' r
      \<and> precedes ''todo-app-service-scaling-target'' ''todo-app-scaledown-policy'' r"
    if run: "valid_run ?P r" and p: "''todo-app-scaledown-policy'' \<in> set r"
  proof -
    have tp: "precedes ''todo-app-service-scaling-target'' ''todo-app-scaledown-policy'' r"
      using valid_run_dep [OF run in_program(7) [of validationOptions],
          of "''todo-app-service-scaling-target''"] p
      by (simp add: names deps_scaling)
    then have "''todo-app-service-scaling-target'' \<in> set r" by (rule precedes_in_run)
    then have "precedes ''todo-app-service'' ''todo-app-service-scaling-target'' r"
      using valid_run_dep [OF run in_program(6) [of validationOptions], of "''todo-app-service''"]
      by (simp add: names deps_scaling)
    with tp show ?thesis by simp
  qed
  have api: "precedes ''todo-api-service'' ''todo-api-service-scaling-target'' r
      \<and> precedes ''todo-api-service-scaling-target'' ''todo-api-scaledown-policy'' r"
    if run: "valid_run ?P r" and p: "''todo-api-scaledown-policy'' \<in> set r"
  proof -
    have tp: "precedes ''todo-api-service-scaling-target'' ''todo-api-scaledown-policy'' r"
      using valid_run_dep [OF run in_program(9) [of validationOptions],
          of "''todo-api-service-scaling-target''"] p
      by (simp add: names deps_scaling)
    then have "''todo-api-service-scaling-target'' \<in> set r" by (rule precedes_in_run)
    then have "precedes ''todo-api-service'' ''todo-api-service-scaling-target'' r"
      using valid_run_dep [OF run in_program(8) [of validationOptions], of "''todo-api-service''"]
      by (simp add: names deps_scaling)
    with tp show ?thesis by simp
  qed
  have steps: "list_all (\<lambda>d. list_all (\<lambda>st. scalingAdjustment st < 0) (stepAdjustments (args d)))
        (filter (\<lambda>d. stepAdjustments (args d) \<noteq> []) ?P)"
    unfolding step_policies_program by (simp add: static_defs)
  have args:
    "args todoAppScalingTarget = Target 10 1
        [Lit ''service/'', Ref ''aws-by-example'' ''clusterName'', Lit ''/'',
         Ref ''todo-app-service'' ''serviceName''] ''ecs:service:DesiredCount'' ''ecs''"
    "args todoApiScalingTarget = Target 10 1
        [Lit ''service/'', Ref ''aws-by-example'' ''clusterName'', Lit ''/'',
         Ref ''todo-api-service'' ''serviceName''] ''ecs:service:DesiredCount'' ''ecs''"
    "args todoAppScalingPolicy = Policy ''StepScaling''
        (Ref ''todo-app-service-scaling-target'' ''resourceId'')
        (Ref ''todo-app-service-scaling-target'' ''scalableDimension'')
        (Ref ''todo-app-service-scaling-target'' ''serviceNamespace'')
        ''ChangeInCapacity'' 60 ''Maximum'' [StepAdjustment None (Some ''0'') (- 1)]"
    "args todoApiScalingPolicy = Policy ''StepScaling''
        (Ref ''todo-api-service-scaling-target'' ''resourceId'')
        (Ref ''todo-api-service-scaling-target'' ''scalableDimension'')
        (Ref ''todo-api-service-scaling-target'' ''serviceNamespace'')
        ''ChangeInCapacity'' 60 ''Maximum'' [StepAdjustment None (Some ''0'') (- 1)]"
    by (simp_all add: static_defs)
  show ?thesis
    unfolding services_program
    using app api steps
    by (simp add: scalingTargetsFor_program policiesFor_program names args)
qed

theorem autoscaling_per_service_witness:
  "valid_run (program [challengeA]) apiRun
   \<and> ''todo-api-scaledown-policy'' \<in> set apiRun
   \<and> scalingTargetsFor (program [challengeA]) todoApiService = [todoApiScalingTarget]
   \<and> policiesFor (program [challengeA]) todoApiScalingTarget = [todoApiScalingPolicy]
   \<and> precedes ''todo-api-service'' ''todo-api-service-scaling-target'' apiRun
   \<and> precedes ''todo-api-service-scaling-target'' ''todo-api-scaledown-policy'' apiRun"
proof -
  have run: "valid_run (program [challengeA]) apiRun" by (rule valid_apiRun)
  have p: "''todo-api-scaledown-policy'' \<in> set apiRun" by (simp add: apiRun_def)
  have t: "scalingTargetsFor (program [challengeA]) todoApiService = [todoApiScalingTarget]"
    by (simp add: scalingTargetsFor_program names)
  have q: "policiesFor (program [challengeA]) todoApiScalingTarget = [todoApiScalingPolicy]"
    by (simp add: policiesFor_program names)
  from autoscaling_per_service [of "[challengeA]" apiRun] run p
  have "precedes ''todo-api-service'' ''todo-api-service-scaling-target'' apiRun
      \<and> precedes ''todo-api-service-scaling-target'' ''todo-api-scaledown-policy'' apiRun"
    unfolding services_program by (simp add: t q names)
  with run p t q show ?thesis by blast
qed

section \<open>The health check of the API service\<close>



end
